theory Spec2Isabelle
  imports Main
begin

section \<open>Platform objects the router talks to\<close>

text \<open>
  The router (src/index.js) is a JavaScript class built on three browser facilities:
  \<^verbatim>\<open>URL\<close>, \<^verbatim>\<open>URLPattern\<close> and the Navigation API. None of them is code of the
  repository, so each appears here as data of the shape the source reads, and their
  constructors (\<^verbatim>\<open>new URL(s)\<close>, \<^verbatim>\<open>new URLPattern({ pathname: route })\<close>) and the ambient
  \<^verbatim>\<open>location.host\<close> are parameters of the functions that use them.
\<close>

datatype error = Error string | TypeError

text \<open>The properties of a \<^verbatim>\<open>URL\<close> object that the source reads: \<^verbatim>\<open>host\<close>, \<^verbatim>\<open>pathname\<close>.\<close>

record URL =
  href :: string
  host :: string
  pathname :: string

text \<open>
  A \<^verbatim>\<open>URLPatternResult\<close>; the source reads \<^verbatim>\<open>match.pathname.groups\<close> only. A group
  that took no part in the match is \<^verbatim>\<open>undefined\<close> (\<open>None\<close>).
\<close>

record URLPatternComponentResult =
  input :: string
  groups :: "string \<rightharpoonup> string option"

record URLPatternResult =
  pathname_result :: URLPatternComponentResult

text \<open>
  A compiled \<^verbatim>\<open>URLPattern\<close> carries the two methods the source calls:
  \<^verbatim>\<open>pattern.test(url)\<close> and \<^verbatim>\<open>pattern.exec(url)\<close> (\<open>None\<close> is \<^verbatim>\<open>null\<close>).
\<close>

record URLPattern =
  test :: "URL \<Rightarrow> bool"
  exec :: "URL \<Rightarrow> URLPatternResult option"

text \<open>
  A \<^verbatim>\<open>NavigateEvent\<close>. \<^verbatim>\<open>downloadRequest\<close> is the requested file name of a download
  navigation and \<^verbatim>\<open>null\<close> (\<open>None\<close>) otherwise; \<open>destination_url\<close> is
  \<^verbatim>\<open>event.destination.url\<close>.
\<close>

record NavigateEvent =
  canIntercept :: bool
  hashChange :: bool
  downloadRequest :: "string option"
  destination_url :: string

text \<open>
  The listeners test event properties for truthiness, and one of them reads a property
  that no \<^verbatim>\<open>NavigateEvent\<close> has. Property access is therefore modelled by name: a name
  that is not a property of the object reads as \<^verbatim>\<open>undefined\<close>.
\<close>

datatype js_value = JUndefined | JNull | JBool bool | JString string

fun truthy :: "js_value \<Rightarrow> bool" where
  "truthy JUndefined = False"
| "truthy JNull = False"
| "truthy (JBool b) = b"
| "truthy (JString s) = (s \<noteq> [])"

definition get_property :: "NavigateEvent \<Rightarrow> string \<Rightarrow> js_value" where
  "get_property event prop =
     (if prop = ''canIntercept'' then JBool (canIntercept event)
      else if prop = ''hashChange'' then JBool (hashChange event)
      else if prop = ''downloadRequest'' then
        (case downloadRequest event of None \<Rightarrow> JNull | Some file \<Rightarrow> JString file)
      else JUndefined)"

section \<open>The router's data\<close>

text \<open>
  Handlers and promise resolvers are JavaScript functions: opaque values of the type
  parameters \<open>'h\<close> and \<open>'k\<close>. A function object is always truthy, so the tests
  \<^verbatim>\<open>if (staticRoute)\<close> and \<^verbatim>\<open>if (this.#resolveRouteChange)\<close> distinguish exactly a stored
  function from \<^verbatim>\<open>undefined\<close> / \<^verbatim>\<open>null\<close> (\<open>None\<close>).
\<close>

text \<open>An element of \<^verbatim>\<open>#dynamicRoutes\<close>: \<^verbatim>\<open>{ route, pattern, handler }\<close>.\<close>

record 'h dynamic_route =
  route :: string
  pattern :: URLPattern
  handler :: 'h

text \<open>
  The three private fields of \<^verbatim>\<open>NavigationRouter\<close>: \<^verbatim>\<open>#staticRoutes\<close> (a \<^verbatim>\<open>Map\<close>),
  \<^verbatim>\<open>#dynamicRoutes\<close> (an array, in push order) and \<^verbatim>\<open>#resolveRouteChange\<close>.
\<close>

record ('h, 'k) NavigationRouter =
  staticRoutes :: "string \<rightharpoonup> 'h"
  dynamicRoutes :: "'h dynamic_route list"
  resolveRouteChange :: "'k option"

text \<open>
  What \<^verbatim>\<open>#getRoute\<close> returns: \<^verbatim>\<open>{ handler: staticRoute }\<close> (no \<^verbatim>\<open>match\<close> property, so
  \<open>found_match = None\<close>) or \<^verbatim>\<open>{ match, handler }\<close>.
\<close>

record 'h found_route =
  found_match :: "URLPatternResult option"
  found_handler :: 'h

text \<open>
  The record \<^verbatim>\<open>route = { params, url }\<close> built by \<^verbatim>\<open>match\<close>. \<^verbatim>\<open>params\<close> is the value of
  \<^verbatim>\<open>match?.pathname?.groups\<close>: \<open>None\<close> is \<^verbatim>\<open>undefined\<close>.
\<close>

record route_record =
  params :: "(string \<rightharpoonup> string option) option"
  url :: URL

text \<open>The object the resolver is called with: \<^verbatim>\<open>{ value: route, done: false }\<close>.\<close>

record iterator_result =
  result_value :: route_record
  result_done :: bool

text \<open>
  A \<^verbatim>\<open>RouterEvent\<close>: its name and its \<^verbatim>\<open>detail\<close>, which is a URL for \<^verbatim>\<open>'404'\<close> and a
  route record for \<^verbatim>\<open>'change'\<close>. (The second copy of the class in src/index.js also
  stores \<^verbatim>\<open>options\<close>, which \<^verbatim>\<open>match\<close> never passes, so it is always \<^verbatim>\<open>{}\<close>.)
\<close>

datatype detail = DetailURL URL | DetailRoute route_record

record RouterEvent =
  name :: string
  detail :: detail

text \<open>
  The arrow function handed to \<^verbatim>\<open>event.intercept\<close> is a closure over \<^verbatim>\<open>route\<close> and
  \<^verbatim>\<open>handler\<close>; it is represented by the two values it captures and run by
  \<open>intercept_handler\<close> below.
\<close>

record 'h deferred_action =
  captured_route :: route_record
  captured_handler :: 'h

text \<open>
  What a method does to the world outside the router, in the order it does it:
  \<^verbatim>\<open>this.dispatchEvent(e)\<close>, \<^verbatim>\<open>event.intercept({ handler })\<close>, a call of the stored
  resolver, and the call \<^verbatim>\<open>handler(route)\<close>.
\<close>

datatype ('h, 'k) effect =
    Dispatch RouterEvent
  | Intercept NavigateEvent "'h deferred_action"
  | Resolve 'k iterator_result
  | Invoke 'h route_record

section \<open>The methods of NavigationRouter\<close>

text \<open>
  The constructor: the field initialisers and the two capability checks. The flags say
  whether \<^verbatim>\<open>window.navigation\<close> and \<^verbatim>\<open>URLPattern\<close> are defined. The listener that
  the constructor registers is \<open>navigate_listener\<close> below.
\<close>

definition constructor :: "bool \<Rightarrow> bool \<Rightarrow> error + ('h, 'k) NavigationRouter" where
  "constructor has_navigation has_URLPattern =
     (if \<not> has_navigation then Inl (Error ''Navigation API unavailable'')
      else if \<not> has_URLPattern then Inl (Error ''URLPattern API unavailable'')
      else Inr \<lparr>staticRoutes = Map.empty, dynamicRoutes = [], resolveRouteChange = None\<rparr>)"

text \<open>
  \<^verbatim>\<open>add(route, handler)\<close>. \<open>URLPattern_new route\<close> is
  \<^verbatim>\<open>new URLPattern({ pathname: route })\<close>, which throws on a malformed template; the
  exception leaves \<^verbatim>\<open>add\<close> before the \<^verbatim>\<open>push\<close>. The result pairs the outcome with the
  router after the call.
\<close>

definition add ::
  "(string \<Rightarrow> error + URLPattern) \<Rightarrow> string \<Rightarrow> 'h \<Rightarrow> ('h, 'k) NavigationRouter
     \<Rightarrow> (error + unit) \<times> ('h, 'k) NavigationRouter" where
  "add URLPattern_new rt h r =
     (if CHR '':'' \<in> set rt then
        (case URLPattern_new rt of
           Inl e \<Rightarrow> (Inl e, r)
         | Inr pat \<Rightarrow>
             (Inr (), r\<lparr>dynamicRoutes :=
                         dynamicRoutes r @ [\<lparr>route = rt, pattern = pat, handler = h\<rparr>]\<rparr>))
      else (Inr (), r\<lparr>staticRoutes := (staticRoutes r)(rt \<mapsto> h)\<rparr>))"

text \<open>A script of registrations, each \<^verbatim>\<open>add\<close> running on the router the previous one left.\<close>

fun add_all ::
  "(string \<Rightarrow> error + URLPattern) \<Rightarrow> (string \<times> 'h) list \<Rightarrow> ('h, 'k) NavigationRouter
     \<Rightarrow> ('h, 'k) NavigationRouter" where
  "add_all URLPattern_new [] r = r"
| "add_all URLPattern_new ((rt, h) # rest) r =
     add_all URLPattern_new rest (snd (add URLPattern_new rt h r))"

text \<open>
  The \<^verbatim>\<open>for ... of this.#dynamicRoutes\<close> loop of \<^verbatim>\<open>#getRoute\<close>; falling off the end
  returns \<^verbatim>\<open>undefined\<close>.
\<close>

fun scan_dynamic :: "'h dynamic_route list \<Rightarrow> URL \<Rightarrow> 'h found_route option" where
  "scan_dynamic [] u = None"
| "scan_dynamic (d # ds) u =
     (if test (pattern d) u
      then Some \<lparr>found_match = exec (pattern d) u, found_handler = handler d\<rparr>
      else scan_dynamic ds u)"

definition getRoute :: "('h, 'k) NavigationRouter \<Rightarrow> URL \<Rightarrow> 'h found_route option" where
  "getRoute r u =
     (case staticRoutes r (pathname u) of
        Some staticRoute \<Rightarrow> Some \<lparr>found_match = None, found_handler = staticRoute\<rparr>
      | None \<Rightarrow> scan_dynamic (dynamicRoutes r) u)"

text \<open>\<^verbatim>\<open>emit(name, data)\<close>: build the \<^verbatim>\<open>RouterEvent\<close> and dispatch it.\<close>

definition emit :: "string \<Rightarrow> detail \<Rightarrow> ('h, 'k) effect list" where
  "emit nm data = [Dispatch \<lparr>name = nm, detail = data\<rparr>]"

text \<open>
  \<^verbatim>\<open>match(url, event)\<close>, up to and including the call of \<^verbatim>\<open>event.intercept\<close>. It returns
  what it did and the router afterwards.
\<close>

definition match ::
  "URL \<Rightarrow> NavigateEvent \<Rightarrow> ('h, 'k) NavigationRouter
     \<Rightarrow> ('h, 'k) effect list \<times> ('h, 'k) NavigationRouter" where
  "match u event r =
     (case getRoute r u of
        None \<Rightarrow> (emit ''404'' (DetailURL u), r)
      | Some matchedRoute \<Rightarrow>
          (let rte = \<lparr>params = map_option (\<lambda>m. groups (pathname_result m))
                                  (found_match matchedRoute),
                      url = u\<rparr>
           in ([Intercept event \<lparr>captured_route = rte,
                                 captured_handler = found_handler matchedRoute\<rparr>], r)))"

text \<open>
  The body of the arrow function given to \<^verbatim>\<open>event.intercept\<close>, run when the host calls
  it, on the router as it is at that moment.
\<close>

definition intercept_handler ::
  "'h deferred_action \<Rightarrow> ('h, 'k) NavigationRouter
     \<Rightarrow> ('h, 'k) effect list \<times> ('h, 'k) NavigationRouter" where
  "intercept_handler act r =
     (case resolveRouteChange r of
        None \<Rightarrow>
          (emit ''change'' (DetailRoute (captured_route act))
             @ [Invoke (captured_handler act) (captured_route act)], r)
      | Some resolve \<Rightarrow>
          (emit ''change'' (DetailRoute (captured_route act))
             @ [Resolve resolve \<lparr>result_value = captured_route act, result_done = False\<rparr>]
             @ [Invoke (captured_handler act) (captured_route act)],
           r\<lparr>resolveRouteChange := None\<rparr>))"

text \<open>
  The \<^verbatim>\<open>navigate\<close> listener of the first copy of the class (src/index.js, lines 40-52).
  \<open>URL_new\<close> is \<^verbatim>\<open>new URL(s)\<close> and \<open>location_host\<close> is \<^verbatim>\<open>location.host\<close>.
\<close>

definition navigate_listener ::
  "(string \<Rightarrow> error + URL) \<Rightarrow> string \<Rightarrow> NavigateEvent \<Rightarrow> ('h, 'k) NavigationRouter
     \<Rightarrow> (error + unit) \<times> ('h, 'k) effect list \<times> ('h, 'k) NavigationRouter" where
  "navigate_listener URL_new location_host event r =
     (if \<not> truthy (get_property event ''canIntercept'')
         \<or> truthy (get_property event ''hashChange'')
         \<or> truthy (get_property event ''downloadRequest'')
      then (Inr (), [], r)
      else
        (case URL_new (destination_url event) of
           Inl e \<Rightarrow> (Inl e, [], r)
         | Inr u \<Rightarrow>
             if host u \<noteq> location_host then (Inr (), [], r)
             else (Inr (), match u event r)))"

text \<open>
  The listener of the second copy of the class (src/index.js, lines 229-241). It differs
  from the first in one identifier: it reads \<^verbatim>\<open>event.downLoadRequest\<close>.
\<close>

definition navigate_listener2 ::
  "(string \<Rightarrow> error + URL) \<Rightarrow> string \<Rightarrow> NavigateEvent \<Rightarrow> ('h, 'k) NavigationRouter
     \<Rightarrow> (error + unit) \<times> ('h, 'k) effect list \<times> ('h, 'k) NavigationRouter" where
  "navigate_listener2 URL_new location_host event r =
     (if \<not> truthy (get_property event ''canIntercept'')
         \<or> truthy (get_property event ''hashChange'')
         \<or> truthy (get_property event ''downLoadRequest'')
      then (Inr (), [], r)
      else
        (case URL_new (destination_url event) of
           Inl e \<Rightarrow> (Inl e, [], r)
         | Inr u \<Rightarrow>
             if host u \<noteq> location_host then (Inr (), [], r)
             else (Inr (), match u event r)))"

section \<open>The async iterator\<close>

text \<open>
  \<^verbatim>\<open>async *[Symbol.asyncIterator]()\<close> is an async generator whose body is
  \<^verbatim>\<open>try { while (true) { yield new Promise(executor) } } finally { slot = null }\<close>.
  The two pieces of the body that touch the router:
\<close>

text \<open>The promise executor \<^verbatim>\<open>(resolve) => { this.#resolveRouteChange = resolve }\<close>.\<close>

definition promise_executor :: "'k \<Rightarrow> ('h, 'k) NavigationRouter \<Rightarrow> ('h, 'k) NavigationRouter" where
  "promise_executor resolve r = r\<lparr>resolveRouteChange := Some resolve\<rparr>"

text \<open>The \<^verbatim>\<open>finally\<close> block \<^verbatim>\<open>this.#resolveRouteChange = null\<close>.\<close>

definition finally_block :: "('h, 'k) NavigationRouter \<Rightarrow> ('h, 'k) NavigationRouter" where
  "finally_block r = r\<lparr>resolveRouteChange := None\<rparr>"

text \<open>
  The language runs that body as a coroutine. A generator object is created suspended
  before its first statement; \<^verbatim>\<open>yield p\<close> in an async generator first awaits \<^verbatim>\<open>p\<close>, and
  while the body waits the generator is executing and queues the requests it receives;
  once the promise is resolved the value is delivered and the generator is suspended at
  the \<^verbatim>\<open>yield\<close>. A consumer asks for the next value (\<^verbatim>\<open>next\<close>) or abandons the iteration:
  \<^verbatim>\<open>return\<close> (also what \<^verbatim>\<open>break\<close>, \<^verbatim>\<open>return\<close> and an exception inside \<^verbatim>\<open>for await\<close>
  call) or \<^verbatim>\<open>throw\<close>.
\<close>

datatype generator_state = SuspendedStart | Executing | SuspendedYield | Completed

datatype request = Next | Return | Throw

record generator =
  gstate :: generator_state
  queue :: "request list"

text \<open>
  Resuming a suspended generator with a request. \<open>resolve\<close> is the function the
  platform hands to the executor if the body reaches \<^verbatim>\<open>new Promise\<close>.
  \<^item> \<^verbatim>\<open>next\<close>: the body enters (or repeats) the loop, runs the executor and waits.
  \<^item> \<^verbatim>\<open>return\<close>/\<^verbatim>\<open>throw\<close> before the first \<^verbatim>\<open>next\<close>: the generator completes without
    entering the \<^verbatim>\<open>try\<close> statement, so the \<^verbatim>\<open>finally\<close> block does not run.
  \<^item> \<^verbatim>\<open>return\<close>/\<^verbatim>\<open>throw\<close> at the \<^verbatim>\<open>yield\<close>: control leaves the \<^verbatim>\<open>try\<close> statement through
    the \<^verbatim>\<open>finally\<close> block and the generator completes; requests still queued are
    answered by the completed generator and never reach the body.
\<close>

fun resume ::
  "request \<Rightarrow> 'k \<Rightarrow> generator \<times> ('h, 'k) NavigationRouter
     \<Rightarrow> generator \<times> ('h, 'k) NavigationRouter" where
  "resume Next resolve (g, r) = (g\<lparr>gstate := Executing\<rparr>, promise_executor resolve r)"
| "resume req resolve (g, r) =
     (if gstate g = SuspendedYield
      then (g\<lparr>gstate := Completed, queue := []\<rparr>, finally_block r)
      else (g\<lparr>gstate := Completed, queue := []\<rparr>, r))"

text \<open>A call of \<^verbatim>\<open>next()\<close>, \<^verbatim>\<open>return()\<close> or \<^verbatim>\<open>throw()\<close> on the generator object.\<close>

definition iterator_request ::
  "request \<Rightarrow> 'k \<Rightarrow> generator \<times> ('h, 'k) NavigationRouter
     \<Rightarrow> generator \<times> ('h, 'k) NavigationRouter" where
  "iterator_request req resolve gr =
     (case gstate (fst gr) of
        Executing \<Rightarrow> ((fst gr)\<lparr>queue := queue (fst gr) @ [req]\<rparr>, snd gr)
      | Completed \<Rightarrow> gr
      | SuspendedStart \<Rightarrow> resume req resolve gr
      | SuspendedYield \<Rightarrow> resume req resolve gr)"

text \<open>
  The awaited promise has been resolved (the resolver was called by
  \<open>intercept_handler\<close>): the value is yielded to the consumer, and the generator
  either continues with the oldest queued request or stays suspended at the \<^verbatim>\<open>yield\<close>.
\<close>

definition promise_resolved ::
  "'k \<Rightarrow> generator \<times> ('h, 'k) NavigationRouter \<Rightarrow> generator \<times> ('h, 'k) NavigationRouter" where
  "promise_resolved resolve gr =
     (if gstate (fst gr) \<noteq> Executing then gr
      else
        (case queue (fst gr) of
           [] \<Rightarrow> ((fst gr)\<lparr>gstate := SuspendedYield\<rparr>, snd gr)
         | req # rest \<Rightarrow>
             resume req resolve ((fst gr)\<lparr>gstate := SuspendedYield, queue := rest\<rparr>, snd gr)))"

text \<open>One step of a generator's life: a request from a consumer, or its promise resolving.\<close>

datatype generator_event = Request request | PromiseResolved

fun generator_step ::
  "generator_event \<Rightarrow> 'k \<Rightarrow> generator \<times> ('h, 'k) NavigationRouter
     \<Rightarrow> generator \<times> ('h, 'k) NavigationRouter" where
  "generator_step (Request req) resolve gr = iterator_request req resolve gr"
| "generator_step PromiseResolved resolve gr = promise_resolved resolve gr"

definition new_generator :: generator where
  "new_generator = \<lparr>gstate = SuspendedStart, queue = []\<rparr>"

section \<open>Reading a trace of effects\<close>

text \<open>The deferred actions handed to \<^verbatim>\<open>event.intercept\<close>, in order.\<close>

definition claimed :: "('h, 'k) effect list \<Rightarrow> 'h deferred_action list" where
  "claimed fx = concat (map (\<lambda>x. case x of Intercept e a \<Rightarrow> [a] | _ \<Rightarrow> []) fx)"

text \<open>The events dispatched, in order.\<close>

definition dispatched :: "('h, 'k) effect list \<Rightarrow> RouterEvent list" where
  "dispatched fx = concat (map (\<lambda>x. case x of Dispatch e \<Rightarrow> [e] | _ \<Rightarrow> []) fx)"

text \<open>The handler calls made, each with its argument, in order.\<close>

definition invoked :: "('h, 'k) effect list \<Rightarrow> ('h \<times> route_record) list" where
  "invoked fx = concat (map (\<lambda>x. case x of Invoke h rt \<Rightarrow> [(h, rt)] | _ \<Rightarrow> []) fx)"


text \<open>
  The pattern entries a script of registrations contributes, in the order of the script:
  one entry for every path that contains a colon and compiles.
\<close>

fun registered_patterns ::
  "(string \<Rightarrow> error + URLPattern) \<Rightarrow> (string \<times> 'h) list \<Rightarrow> 'h dynamic_route list" where
  "registered_patterns URLPattern_new [] = []"
| "registered_patterns URLPattern_new ((rt, h) # rest) =
     (if CHR '':'' \<in> set rt
      then (case URLPattern_new rt of
              Inl e \<Rightarrow> []
            | Inr pat \<Rightarrow> [\<lparr>route = rt, pattern = pat, handler = h\<rparr>])
      else [])
     @ registered_patterns URLPattern_new rest"

section \<open>Stand-ins for the platform, for running the model on concrete inputs\<close>

text \<open>
  The theorems below hold for every \<open>URL_new\<close>, \<open>URLPattern_new\<close> and compiled pattern.
  To run the model, these definitions give one executable platform: URLs of the form
  \<^verbatim>\<open>https://host/path\<close>, and the single template \<^verbatim>\<open>/posts/:id\<close>, whose matcher accepts a
  pathname \<^verbatim>\<open>/posts/\<close> followed by one non-empty segment and binds it to \<^verbatim>\<open>id\<close>.
\<close>

fun strip_prefix :: "string \<Rightarrow> string \<Rightarrow> string option" where
  "strip_prefix [] s = Some s"
| "strip_prefix (c # cs) [] = None"
| "strip_prefix (c # cs) (d # ds) = (if c = d then strip_prefix cs ds else None)"

definition example_URL_new :: "string \<Rightarrow> error + URL" where
  "example_URL_new s =
     (case strip_prefix ''https://'' s of
        None \<Rightarrow> Inl TypeError
      | Some rest \<Rightarrow>
          (let h = takeWhile (\<lambda>c. c \<noteq> CHR ''/'') rest;
               p = dropWhile (\<lambda>c. c \<noteq> CHR ''/'') rest
           in if h = [] then Inl TypeError
              else Inr \<lparr>href = s, host = h, pathname = (if p = [] then ''/'' else p)\<rparr>))"

definition posts_exec :: "URL \<Rightarrow> URLPatternResult option" where
  "posts_exec u =
     (case strip_prefix ''/posts/'' (pathname u) of
        None \<Rightarrow> None
      | Some seg \<Rightarrow>
          if seg = [] \<or> CHR ''/'' \<in> set seg then None
          else Some \<lparr>pathname_result =
                       \<lparr>input = pathname u, groups = [''id'' \<mapsto> Some seg]\<rparr>\<rparr>)"

definition posts_pattern :: URLPattern where
  "posts_pattern = \<lparr>test = (\<lambda>u. posts_exec u \<noteq> None), exec = posts_exec\<rparr>"

definition example_URLPattern_new :: "string \<Rightarrow> error + URLPattern" where
  "example_URLPattern_new rt = (if rt = ''/posts/:id'' then Inr posts_pattern else Inl TypeError)"

definition empty_router :: "(string, nat) NavigationRouter" where
  "empty_router = \<lparr>staticRoutes = Map.empty, dynamicRoutes = [], resolveRouteChange = None\<rparr>"

definition example_event :: "string \<Rightarrow> NavigateEvent" where
  "example_event s =
     \<lparr>canIntercept = True, hashChange = False, downloadRequest = None, destination_url = s\<rparr>"


text \<open>A matcher that accepts every URL, as \<^verbatim>\<open>/:rest\<close> would with a one-segment path.\<close>

definition catch_all :: URLPattern where
  "catch_all =
     \<lparr>test = (\<lambda>u. True),
      exec = (\<lambda>u. Some \<lparr>pathname_result =
                            \<lparr>input = pathname u, groups = [''rest'' \<mapsto> Some (pathname u)]\<rparr>\<rparr>)\<rparr>"

text \<open>A router with a general pattern registered before a more specific one.\<close>

definition two_patterns :: "(string, nat) NavigationRouter" where
  "two_patterns =
     \<lparr>staticRoutes = [''/'' \<mapsto> ''h1''],
      dynamicRoutes = [\<lparr>route = ''/:rest'', pattern = catch_all, handler = ''h2''\<rparr>,
                       \<lparr>route = ''/posts/:id'', pattern = posts_pattern, handler = ''h3''\<rparr>],
      resolveRouteChange = None\<rparr>"

text \<open>The router of the README: \<^verbatim>\<open>add('/', h1); add('/posts/:id', h2)\<close>.\<close>

definition site_router :: "(string, nat) NavigationRouter" where
  "site_router =
     \<lparr>staticRoutes = [''/'' \<mapsto> ''h1''],
      dynamicRoutes = [\<lparr>route = ''/posts/:id'', pattern = posts_pattern, handler = ''h2''\<rparr>],
      resolveRouteChange = None\<rparr>"

definition files_router :: "(string, nat) NavigationRouter" where
  "files_router =
     \<lparr>staticRoutes = [''/files/report.pdf'' \<mapsto> ''h1''], dynamicRoutes = [],
      resolveRouteChange = None\<rparr>"

definition about_url :: URL where
  "about_url = \<lparr>href = ''https://site/about'', host = ''site'', pathname = ''/about''\<rparr>"

definition post_42 :: URL where
  "post_42 = \<lparr>href = ''https://site/posts/42'', host = ''site'', pathname = ''/posts/42''\<rparr>"

definition missing_url :: URL where
  "missing_url = \<lparr>href = ''https://site/missing'', host = ''site'', pathname = ''/missing''\<rparr>"

text \<open>A same-origin, interceptable navigation started by a link with a \<^verbatim>\<open>download\<close> attribute.\<close>

definition download_event :: NavigateEvent where
  "download_event =
     \<lparr>canIntercept = True, hashChange = False, downloadRequest = Some ''report.pdf'',
      destination_url = ''https://site/files/report.pdf''\<rparr>"

section \<open>Lemmas about the route table\<close>

text \<open>The pattern scan returns nothing exactly when no matcher accepts the URL.\<close>

lemma scan_dynamic_none:
  "(scan_dynamic ds u = None) = (\<forall>d \<in> set ds. \<not> test (pattern d) u)"
  by (induction ds) auto

text \<open>The scan returns the entry at the first accepting position.\<close>

lemma scan_dynamic_first:
  "i < length ds \<Longrightarrow> test (pattern (ds ! i)) u \<Longrightarrow> \<forall>j<i. \<not> test (pattern (ds ! j)) u \<Longrightarrow>
   scan_dynamic ds u =
     Some \<lparr>found_match = exec (pattern (ds ! i)) u, found_handler = handler (ds ! i)\<rparr>"
proof (induction ds arbitrary: i)
  case Nil
  then show ?case by simp
next
  case (Cons d ds)
  show ?case
  proof (cases i)
    case 0
    with Cons.prems show ?thesis by simp
  next
    case (Suc k)
    from Cons.prems Suc have nd: "\<not> test (pattern d) u" by auto
    from Cons.prems Suc have "k < length ds" "test (pattern (ds ! k)) u"
      "\<forall>j<k. \<not> test (pattern (ds ! j)) u" by auto
    from Cons.IH[OF this] nd Suc show ?thesis by simp
  qed
qed

text \<open>Whatever the scan returns comes from the first accepting position.\<close>

lemma scan_dynamic_Some:
  "scan_dynamic ds u = Some f \<Longrightarrow>
   \<exists>i<length ds. test (pattern (ds ! i)) u \<and> (\<forall>j<i. \<not> test (pattern (ds ! j)) u)
      \<and> f = \<lparr>found_match = exec (pattern (ds ! i)) u, found_handler = handler (ds ! i)\<rparr>"
proof (induction ds)
  case Nil
  then show ?case by simp
next
  case (Cons d ds)
  show ?case
  proof (cases "test (pattern d) u")
    case True
    with Cons.prems have "f = \<lparr>found_match = exec (pattern d) u, found_handler = handler d\<rparr>"
      by simp
    with True show ?thesis by (intro exI[of _ 0]) simp
  next
    case False
    with Cons.prems have "scan_dynamic ds u = Some f" by simp
    from Cons.IH[OF this] obtain i where i: "i < length ds" "test (pattern (ds ! i)) u"
      "\<forall>j<i. \<not> test (pattern (ds ! j)) u"
      "f = \<lparr>found_match = exec (pattern (ds ! i)) u, found_handler = handler (ds ! i)\<rparr>"
      by blast
    have "\<forall>j<Suc i. \<not> test (pattern ((d # ds) ! j)) u"
      using False i(3) by (auto simp: less_Suc_eq_0_disj)
    with i show ?thesis by (intro exI[of _ "Suc i"]) simp
  qed
qed

text \<open>Registrations of other paths leave the static entry of a path alone.\<close>

lemma add_all_static_other:
  "p \<notin> fst ` set later \<Longrightarrow> staticRoutes (add_all new later r) p = staticRoutes r p"
proof (induction later arbitrary: r)
  case Nil
  then show ?case by simp
next
  case (Cons a later)
  obtain q h where a: "a = (q, h)" by (cases a)
  with Cons.prems have "q \<noteq> p" "p \<notin> fst ` set later" by auto
  then show ?case using Cons.IH[of "snd (add new q h r)"] a
    by (simp add: add_def split: sum.splits)
qed

text \<open>The pattern sequence grows at its end, in the order of the registrations.\<close>

lemma add_all_dynamic:
  "dynamicRoutes (add_all new script r) = dynamicRoutes r @ registered_patterns new script"
proof (induction script arbitrary: r)
  case Nil
  then show ?case by simp
next
  case (Cons a script)
  obtain q h where a: "a = (q, h)" by (cases a)
  show ?case unfolding a
    by (simp add: Cons.IH add_def split: sum.splits)
qed

lemma add_static_lookup:
  "CHR '':'' \<notin> set p \<Longrightarrow> staticRoutes (snd (add new p h r)) p = Some h"
  by (simp add: add_def)

lemma match_static:
  "staticRoutes r (pathname u) = Some h \<Longrightarrow>
   match u ev r = ([Intercept ev \<lparr>captured_route = \<lparr>params = None, url = u\<rparr>,
                                   captured_handler = h\<rparr>], r)"
  by (simp add: match_def getRoute_def)

lemma match_snd: "snd (match u ev r) = r"
  by (simp add: match_def split: option.splits)

text \<open>\<^verbatim>\<open>match\<close> always does something, so an empty trace means it was not called.\<close>

lemma match_effects_nonempty: "fst (match u ev r) \<noteq> []"
  by (simp add: match_def emit_def split: option.splits)

section \<open>Lemmas about the deferred action\<close>

lemma intercept_handler_invoked:
  "invoked (fst (intercept_handler act r)) = [(captured_handler act, captured_route act)]"
  by (simp add: intercept_handler_def invoked_def emit_def split: option.splits)

lemma intercept_handler_dispatched:
  "dispatched (fst (intercept_handler act r)) =
     [\<lparr>name = ''change'', detail = DetailRoute (captured_route act)\<rparr>]"
  by (simp add: intercept_handler_def dispatched_def emit_def split: option.splits)

lemma intercept_handler_table:
  "staticRoutes (snd (intercept_handler act r)) = staticRoutes r
   \<and> dynamicRoutes (snd (intercept_handler act r)) = dynamicRoutes r"
  by (simp add: intercept_handler_def split: option.splits)


section \<open>Lemmas about the navigate listeners\<close>

text \<open>
  The first copy of the listener ignores a navigation that cannot be intercepted, a hash
  change, a download with a file name, and a destination on another host.
\<close>

lemma navigate_listener_ignores:
  assumes "\<not> canIntercept ev \<or> hashChange ev
           \<or> (\<exists>file. downloadRequest ev = Some file \<and> file \<noteq> [])
           \<or> (\<exists>u. URL_new (destination_url ev) = Inr u \<and> host u \<noteq> lh)"
  shows "navigate_listener URL_new lh ev r = (Inr (), [], r)"
  using assms
  by (auto simp: navigate_listener_def get_property_def split: sum.splits option.splits)

text \<open>The second copy ignores the same navigations, downloads excepted.\<close>

lemma navigate_listener2_ignores:
  assumes "\<not> canIntercept ev \<or> hashChange ev
           \<or> (\<exists>u. URL_new (destination_url ev) = Inr u \<and> host u \<noteq> lh)"
  shows "navigate_listener2 URL_new lh ev r = (Inr (), [], r)"
  using assms
  by (auto simp: navigate_listener2_def get_property_def split: sum.splits option.splits)

text \<open>The two copies agree on every navigation that is not a download with a file name.\<close>

lemma navigate_listeners_agree:
  assumes "downloadRequest ev = None \<or> downloadRequest ev = Some []"
  shows "navigate_listener2 URL_new lh ev r = navigate_listener URL_new lh ev r"
  using assms
  by (auto simp: navigate_listener_def navigate_listener2_def get_property_def)

lemma navigate_listener_snd:
  "snd (snd (navigate_listener URL_new lh ev r)) = r"
  by (simp add: navigate_listener_def match_snd split: sum.splits)

lemma navigate_listener2_snd:
  "snd (snd (navigate_listener2 URL_new lh ev r)) = r"
  by (simp add: navigate_listener2_def match_snd split: sum.splits)

section \<open>Lemmas about the async iterator\<close>

lemma resume_table:
  "staticRoutes (snd (resume req k (g, r))) = staticRoutes r
   \<and> dynamicRoutes (snd (resume req k (g, r))) = dynamicRoutes r"
  by (cases req) (simp_all add: promise_executor_def finally_block_def)

lemma generator_step_table:
  "staticRoutes (snd (generator_step gev k (g, r))) = staticRoutes r
   \<and> dynamicRoutes (snd (generator_step gev k (g, r))) = dynamicRoutes r"
proof (cases gev)
  case (Request req)
  then show ?thesis
    by (simp add: iterator_request_def resume_table split: generator_state.splits)
next
  case PromiseResolved
  then show ?thesis
    by (simp add: promise_resolved_def resume_table split: list.splits)
qed






section \<open>The claims\<close>

text \<open>
  C1 (as amended). For every static path \<open>p\<close> (a path without a colon) registered via
  \<^verbatim>\<open>add\<close>, after any later registrations of other paths, and every navigation whose URL
  pathname equals \<open>p\<close>, \<^verbatim>\<open>match\<close> claims the navigation with the handler registered for
  \<open>p\<close>, and the matched-route record handed to the handler and carried by the
  \<^verbatim>\<open>change\<close> notification has \<^verbatim>\<open>params\<close> equal to \<^verbatim>\<open>undefined\<close>: a static route has no
  match object, so \<^verbatim>\<open>match?.pathname?.groups\<close> is \<^verbatim>\<open>undefined\<close>, not an empty mapping.
\<close>

theorem static_route_params_undefined:
  assumes "CHR '':'' \<notin> set p" and "p \<notin> fst ` set later" and "pathname u = p"
  shows "match u ev (add_all new later (snd (add new p h r))) =
           ([Intercept ev \<lparr>captured_route = \<lparr>params = None, url = u\<rparr>,
                            captured_handler = h\<rparr>],
            add_all new later (snd (add new p h r)))
         \<and> dispatched (fst (intercept_handler
               \<lparr>captured_route = \<lparr>params = None, url = u\<rparr>, captured_handler = h\<rparr> r')) =
             [\<lparr>name = ''change'', detail = DetailRoute \<lparr>params = None, url = u\<rparr>\<rparr>]
         \<and> invoked (fst (intercept_handler
               \<lparr>captured_route = \<lparr>params = None, url = u\<rparr>, captured_handler = h\<rparr> r')) =
             [(h, \<lparr>params = None, url = u\<rparr>)]"
proof -
  have "staticRoutes (add_all new later (snd (add new p h r))) (pathname u) = Some h"
    using assms by (simp add: add_all_static_other add_static_lookup)
  then show ?thesis
    by (simp add: match_static intercept_handler_invoked intercept_handler_dispatched)
qed

theorem static_route_params_undefined_witness:
  "CHR '':'' \<notin> set ''/about'' \<and> ''/about'' \<notin> fst ` set [(''/posts/:id'', ''h2'')]
   \<and> pathname about_url = ''/about''
   \<and> fst (match about_url (example_event ''https://site/about'')
        (add_all example_URLPattern_new [(''/posts/:id'', ''h2'')]
           (snd (add example_URLPattern_new ''/about'' ''h1'' empty_router)))) =
      [Intercept (example_event ''https://site/about'')
         \<lparr>captured_route = \<lparr>params = None, url = about_url\<rparr>, captured_handler = ''h1''\<rparr>]
   \<and> invoked (fst (intercept_handler
         \<lparr>captured_route = \<lparr>params = None, url = about_url\<rparr>, captured_handler = ''h1''\<rparr>
         empty_router)) =
      [(''h1'', \<lparr>params = None, url = about_url\<rparr>)]"
  using static_route_params_undefined
    [where p = "''/about''" and later = "[(''/posts/:id'', ''h2'')]" and u = about_url
       and ev = "example_event ''https://site/about''" and new = example_URLPattern_new
       and h = "''h1''" and r = empty_router and r' = empty_router]
  by (simp add: about_url_def)

text \<open>
  C1 as stated fails: after \<^verbatim>\<open>add('/about', h1)\<close>, a navigation to
  \<^verbatim>\<open>https://site/about\<close> is claimed with a route record whose \<^verbatim>\<open>params\<close> is
  \<^verbatim>\<open>undefined\<close>, which is not the empty mapping.
\<close>

theorem static_route_params_counterexample:
  "map (params \<circ> captured_route)
     (claimed (fst (match about_url (example_event ''https://site/about'')
                      (snd (add example_URLPattern_new ''/about'' ''h1'' empty_router))))) = [None]
   \<and> map (params \<circ> captured_route)
     (claimed (fst (match about_url (example_event ''https://site/about'')
                      (snd (add example_URLPattern_new ''/about'' ''h1'' empty_router)))))
       \<noteq> [Some Map.empty]"
  by (simp add: about_url_def add_def empty_router_def match_def getRoute_def claimed_def)

text \<open>
  C2. For every URL, \<^verbatim>\<open>#getRoute\<close> first looks the URL's pathname up in the static
  mapping and returns that handler with no match object. Only when there is no static
  entry does it scan the pattern sequence in order: the result is the handler of the
  first entry whose matcher accepts the URL, with what its \<^verbatim>\<open>exec\<close> extracts (whose named
  groups become \<^verbatim>\<open>params\<close>); whatever is returned comes from the first accepting
  position, so no entry after an accepting one is selected; nothing is returned exactly
  when no matcher accepts. The sequence is in registration order.
\<close>

theorem getRoute_static_then_first_pattern:
  "(staticRoutes r (pathname u) = Some h \<longrightarrow>
      getRoute r u = Some \<lparr>found_match = None, found_handler = h\<rparr>)
   \<and> (staticRoutes r (pathname u) = None \<longrightarrow> i < length (dynamicRoutes r) \<longrightarrow>
        test (pattern (dynamicRoutes r ! i)) u \<longrightarrow>
        (\<forall>j<i. \<not> test (pattern (dynamicRoutes r ! j)) u) \<longrightarrow>
          getRoute r u = Some \<lparr>found_match = exec (pattern (dynamicRoutes r ! i)) u,
                                found_handler = handler (dynamicRoutes r ! i)\<rparr>
          \<and> match u ev r =
              ([Intercept ev
                  \<lparr>captured_route =
                     \<lparr>params = map_option (\<lambda>m. groups (pathname_result m))
                                  (exec (pattern (dynamicRoutes r ! i)) u),
                        url = u\<rparr>,
                   captured_handler = handler (dynamicRoutes r ! i)\<rparr>], r))
   \<and> (staticRoutes r (pathname u) = None \<longrightarrow> getRoute r u = Some f \<longrightarrow>
        (\<exists>k<length (dynamicRoutes r).
            test (pattern (dynamicRoutes r ! k)) u
            \<and> (\<forall>j<k. \<not> test (pattern (dynamicRoutes r ! j)) u)
            \<and> f = \<lparr>found_match = exec (pattern (dynamicRoutes r ! k)) u,
                    found_handler = handler (dynamicRoutes r ! k)\<rparr>))
   \<and> (staticRoutes r (pathname u) = None \<longrightarrow>
        (getRoute r u = None) = (\<forall>d \<in> set (dynamicRoutes r). \<not> test (pattern d) u))
   \<and> dynamicRoutes (add_all new script r) = dynamicRoutes r @ registered_patterns new script"
proof (intro conjI impI)
  assume "staticRoutes r (pathname u) = Some h"
  then show "getRoute r u = Some \<lparr>found_match = None, found_handler = h\<rparr>"
    by (simp add: getRoute_def)
next
  assume a: "staticRoutes r (pathname u) = None" "i < length (dynamicRoutes r)"
    "test (pattern (dynamicRoutes r ! i)) u" "\<forall>j<i. \<not> test (pattern (dynamicRoutes r ! j)) u"
  show g: "getRoute r u = Some \<lparr>found_match = exec (pattern (dynamicRoutes r ! i)) u,
                                found_handler = handler (dynamicRoutes r ! i)\<rparr>"
    using a(1) scan_dynamic_first[OF a(2,3,4)] by (simp add: getRoute_def)
  show "match u ev r =
              ([Intercept ev
                  \<lparr>captured_route =
                     \<lparr>params = map_option (\<lambda>m. groups (pathname_result m))
                                  (exec (pattern (dynamicRoutes r ! i)) u),
                        url = u\<rparr>,
                   captured_handler = handler (dynamicRoutes r ! i)\<rparr>], r)"
    by (simp add: match_def g)
next
  assume "staticRoutes r (pathname u) = None" "getRoute r u = Some f"
  then have "scan_dynamic (dynamicRoutes r) u = Some f" by (simp add: getRoute_def)
  then show "\<exists>k<length (dynamicRoutes r).
            test (pattern (dynamicRoutes r ! k)) u
            \<and> (\<forall>j<k. \<not> test (pattern (dynamicRoutes r ! j)) u)
            \<and> f = \<lparr>found_match = exec (pattern (dynamicRoutes r ! k)) u,
                    found_handler = handler (dynamicRoutes r ! k)\<rparr>"
    by (rule scan_dynamic_Some)
next
  assume "staticRoutes r (pathname u) = None"
  then show "(getRoute r u = None) = (\<forall>d \<in> set (dynamicRoutes r). \<not> test (pattern d) u)"
    by (simp add: getRoute_def scan_dynamic_none)
next
  show "dynamicRoutes (add_all new script r) = dynamicRoutes r @ registered_patterns new script"
    by (rule add_all_dynamic)
qed

text \<open>
  On \<open>two_patterns\<close> both matchers accept \<^verbatim>\<open>/posts/42\<close>; the general one, registered
  first, is selected. The static entry answers for \<^verbatim>\<open>/\<close> although the general matcher
  accepts it too.
\<close>

theorem getRoute_static_then_first_pattern_witness:
  "staticRoutes two_patterns (pathname post_42) = None
   \<and> (0::nat) < length (dynamicRoutes two_patterns)
   \<and> test (pattern (dynamicRoutes two_patterns ! 0)) post_42
   \<and> test (pattern (dynamicRoutes two_patterns ! 1)) post_42
   \<and> map_option found_handler (getRoute two_patterns post_42) = Some ''h2''
   \<and> test catch_all \<lparr>href = ''https://site/'', host = ''site'', pathname = ''/''\<rparr>
   \<and> getRoute two_patterns
        \<lparr>href = ''https://site/'', host = ''site'', pathname = ''/''\<rparr> =
      Some \<lparr>found_match = None, found_handler = ''h1''\<rparr>"
  using getRoute_static_then_first_pattern
    [where r = two_patterns and u = post_42 and i = 0]
    getRoute_static_then_first_pattern
    [where r = two_patterns and h = "''h1''"
       and u = "\<lparr>href = ''https://site/'', host = ''site'', pathname = ''/''\<rparr>"]
  by (simp add: two_patterns_def post_42_def catch_all_def posts_pattern_def posts_exec_def)

text \<open>
  C3. For every call \<^verbatim>\<open>add(path, handler)\<close> that returns: if the path contains a colon,
  the entry is appended to the pattern sequence, also when an entry with the same path is
  already there; otherwise the handler is stored in the static mapping under the path.
  When a static path is registered twice (with any registrations in between), a
  navigation to that path is claimed for the second handler, and running the deferred
  action calls that handler only.
\<close>

theorem add_classifies_and_replaces:
  "(CHR '':'' \<in> set rt \<longrightarrow> new rt = Inr pat \<longrightarrow>
      add new rt ha r =
        (Inr (), r\<lparr>dynamicRoutes :=
                     dynamicRoutes r @ [\<lparr>route = rt, pattern = pat, handler = ha\<rparr>]\<rparr>)
      \<and> dynamicRoutes (snd (add new rt hb (snd (add new rt ha r)))) =
          dynamicRoutes r @ [\<lparr>route = rt, pattern = pat, handler = ha\<rparr>,
                              \<lparr>route = rt, pattern = pat, handler = hb\<rparr>])
   \<and> (CHR '':'' \<notin> set rt \<longrightarrow>
        add new rt ha r = (Inr (), r\<lparr>staticRoutes := (staticRoutes r)(rt \<mapsto> ha)\<rparr>)
        \<and> (pathname u = rt \<longrightarrow>
             match u ev (snd (add new rt hb (add_all new between (snd (add new rt ha r))))) =
               ([Intercept ev \<lparr>captured_route = \<lparr>params = None, url = u\<rparr>,
                                captured_handler = hb\<rparr>],
                snd (add new rt hb (add_all new between (snd (add new rt ha r)))))
             \<and> map fst (invoked (fst (intercept_handler
                   \<lparr>captured_route = \<lparr>params = None, url = u\<rparr>, captured_handler = hb\<rparr> r')))
                 = [hb]))"
  by (simp add: add_def match_static intercept_handler_invoked)

theorem add_classifies_and_replaces_witness:
  "CHR '':'' \<in> set ''/posts/:id'' \<and> example_URLPattern_new ''/posts/:id'' = Inr posts_pattern
   \<and> CHR '':'' \<notin> set ''/about''
   \<and> pathname about_url = ''/about''
   \<and> map route (dynamicRoutes (snd (add example_URLPattern_new ''/posts/:id'' ''h2''
         (snd (add example_URLPattern_new ''/posts/:id'' ''h1'' empty_router))))) =
       [''/posts/:id'', ''/posts/:id'']
   \<and> claimed (fst (match about_url (example_event ''https://site/about'')
         (snd (add example_URLPattern_new ''/about'' ''h2''
            (add_all example_URLPattern_new [(''/'', ''h3'')]
               (snd (add example_URLPattern_new ''/about'' ''h1'' empty_router))))))) =
       [\<lparr>captured_route = \<lparr>params = None, url = about_url\<rparr>, captured_handler = ''h2''\<rparr>]"
  using add_classifies_and_replaces
    [where rt = "''/posts/:id''" and new = example_URLPattern_new and pat = posts_pattern
       and ha = "''h1''" and hb = "''h2''" and r = empty_router]
    add_classifies_and_replaces
    [where rt = "''/about''" and new = example_URLPattern_new
       and ha = "''h1''" and hb = "''h2''" and r = empty_router and between = "[(''/'', ''h3'')]"
       and u = about_url and ev = "example_event ''https://site/about''" and r' = empty_router]
  by (simp add: example_URLPattern_new_def claimed_def add_def empty_router_def match_def
      getRoute_def about_url_def)

text \<open>
  C4. For every URL with no static entry for its pathname and no pattern entry whose
  matcher accepts it, \<^verbatim>\<open>match\<close> dispatches exactly one \<^verbatim>\<open>404\<close> event whose detail is
  the URL it was given and does nothing else: no \<^verbatim>\<open>change\<close> event, no call of
  \<^verbatim>\<open>event.intercept\<close> (so no deferred action exists that could call a handler), and the
  router is unchanged.
\<close>

theorem match_not_found:
  assumes "staticRoutes r (pathname u) = None"
    and "\<forall>d \<in> set (dynamicRoutes r). \<not> test (pattern d) u"
  shows "match u ev r = ([Dispatch \<lparr>name = ''404'', detail = DetailURL u\<rparr>], r)
         \<and> dispatched (fst (match u ev r)) = [\<lparr>name = ''404'', detail = DetailURL u\<rparr>]
         \<and> claimed (fst (match u ev r)) = []
         \<and> invoked (fst (match u ev r)) = []"
proof -
  have "getRoute r u = None"
    using assms by (simp add: getRoute_def scan_dynamic_none)
  then have m: "match u ev r = ([Dispatch \<lparr>name = ''404'', detail = DetailURL u\<rparr>], r)"
    by (simp add: match_def emit_def)
  show ?thesis
    by (simp add: m dispatched_def claimed_def invoked_def)
qed

theorem match_not_found_witness:
  "staticRoutes site_router (pathname missing_url) = None
   \<and> map route (dynamicRoutes site_router) = [''/posts/:id'']
   \<and> \<not> test (pattern (dynamicRoutes site_router ! 0)) missing_url
   \<and> match missing_url (example_event ''https://site/missing'') site_router =
       ([Dispatch \<lparr>name = ''404'', detail = DetailURL missing_url\<rparr>], site_router)"
proof -
  have h: "staticRoutes site_router (pathname missing_url) = None"
    "\<forall>d \<in> set (dynamicRoutes site_router). \<not> test (pattern d) missing_url"
    by (simp_all add: site_router_def missing_url_def posts_pattern_def posts_exec_def)
  have d: "map route (dynamicRoutes site_router) = [''/posts/:id'']"
    "\<not> test (pattern (dynamicRoutes site_router ! 0)) missing_url"
    by (simp_all add: site_router_def missing_url_def posts_pattern_def posts_exec_def)
  from match_not_found[OF h, of "example_event ''https://site/missing''"] h d
  show ?thesis by simp
qed

text \<open>
  C5. The claim: a navigation with \<^verbatim>\<open>downloadRequest\<close> set is never handed to \<^verbatim>\<open>match\<close>.
  The first copy of the listener does that (\<open>navigate_listener_ignores\<close>). The second
  copy reads \<^verbatim>\<open>event.downLoadRequest\<close>, which is \<^verbatim>\<open>undefined\<close> on every event, and hands
  an interceptable same-host download to \<^verbatim>\<open>match\<close>: here the navigation is claimed for
  the handler of \<^verbatim>\<open>/files/report.pdf\<close>.
\<close>

theorem navigate_listener2_claims_download:
  "navigate_listener2 example_URL_new ''site'' download_event files_router =
     (Inr (),
      [Intercept download_event
         \<lparr>captured_route =
            \<lparr>params = None,
               url = \<lparr>href = ''https://site/files/report.pdf'', host = ''site'',
                      pathname = ''/files/report.pdf''\<rparr>\<rparr>,
          captured_handler = ''h1''\<rparr>],
      files_router)"
  by (simp add: navigate_listener2_def get_property_def download_event_def example_URL_new_def
      Let_def files_router_def match_def getRoute_def)

theorem navigate_listener2_claims_download_witness:
  "map captured_handler
     (claimed (fst (snd (navigate_listener2 example_URL_new ''site'' download_event
                           files_router)))) = [''h1'']"
  using navigate_listener2_claims_download by (simp add: claimed_def)

text \<open>
  C6. For every successful match, \<^verbatim>\<open>match\<close> claims the navigation with a deferred action
  over the matched-route record and the handler, and running a deferred action on the
  router as it then is does, in this order: dispatch \<^verbatim>\<open>change\<close> with the record; if a
  resolver is stored, call it with \<^verbatim>\<open>{ value: route, done: false }\<close>; call the handler
  with the record. The slot is empty afterwards.
\<close>

theorem intercept_handler_order:
  assumes "getRoute r u = Some m"
  shows "match u ev r =
           ([Intercept ev
               \<lparr>captured_route =
                  \<lparr>params = map_option (\<lambda>x. groups (pathname_result x)) (found_match m), url = u\<rparr>,
                captured_handler = found_handler m\<rparr>], r)
         \<and> intercept_handler \<lparr>captured_route = rte, captured_handler = h\<rparr> r' =
             (Dispatch \<lparr>name = ''change'', detail = DetailRoute rte\<rparr>
                # (case resolveRouteChange r' of
                     None \<Rightarrow> []
                   | Some resolve \<Rightarrow> [Resolve resolve \<lparr>result_value = rte, result_done = False\<rparr>])
                @ [Invoke h rte],
              r'\<lparr>resolveRouteChange := None\<rparr>)"
  using assms
  by (cases r') (simp add: match_def intercept_handler_def emit_def split: option.splits)

theorem intercept_handler_order_witness:
  "getRoute site_router post_42 =
     Some \<lparr>found_match = posts_exec post_42, found_handler = ''h2''\<rparr>
   \<and> claimed (fst (match post_42 (example_event ''https://site/posts/42'') site_router)) =
       [\<lparr>captured_route = \<lparr>params = Some [''id'' \<mapsto> Some ''42''], url = post_42\<rparr>,
         captured_handler = ''h2''\<rparr>]
   \<and> intercept_handler
        \<lparr>captured_route = \<lparr>params = Some [''id'' \<mapsto> Some ''42''], url = post_42\<rparr>,
         captured_handler = ''h2''\<rparr>
        (site_router\<lparr>resolveRouteChange := Some 7\<rparr>) =
       ([Dispatch \<lparr>name = ''change'',
                   detail = DetailRoute \<lparr>params = Some [''id'' \<mapsto> Some ''42''], url = post_42\<rparr>\<rparr>,
         Resolve 7 \<lparr>result_value = \<lparr>params = Some [''id'' \<mapsto> Some ''42''], url = post_42\<rparr>,
                    result_done = False\<rparr>,
         Invoke ''h2'' \<lparr>params = Some [''id'' \<mapsto> Some ''42''], url = post_42\<rparr>],
        site_router)"
proof -
  have h: "getRoute site_router post_42 =
     Some \<lparr>found_match = posts_exec post_42, found_handler = ''h2''\<rparr>"
    by (simp add: getRoute_def site_router_def post_42_def posts_pattern_def posts_exec_def)
  have p: "posts_exec post_42 =
     Some \<lparr>pathname_result = \<lparr>input = ''/posts/42'', groups = [''id'' \<mapsto> Some ''42'']\<rparr>\<rparr>"
    by (simp add: post_42_def posts_exec_def)
  from intercept_handler_order[OF h,
      where rte = "\<lparr>params = Some [''id'' \<mapsto> Some ''42''], url = post_42\<rparr>"
        and h = "''h2''" and r' = "site_router\<lparr>resolveRouteChange := Some 7\<rparr>"
        and ev = "example_event ''https://site/posts/42''"] h p
  show ?thesis by (simp add: site_router_def claimed_def)
qed

text \<open>
  C7. For every path that contains a colon and whose template fails to compile, \<^verbatim>\<open>add\<close>
  ends with the compilation error and the router is exactly as before the call: nothing
  is added to the pattern sequence or to the static mapping.
\<close>

theorem add_compile_failure:
  "CHR '':'' \<in> set rt \<Longrightarrow> new rt = Inl e \<Longrightarrow> add new rt h r = (Inl e, r)"
  by (simp add: add_def)

theorem add_compile_failure_witness:
  "CHR '':'' \<in> set ''/posts/:'' \<and> example_URLPattern_new ''/posts/:'' = Inl TypeError
   \<and> add example_URLPattern_new ''/posts/:'' ''h1'' site_router = (Inl TypeError, site_router)"
proof -
  have h: "CHR '':'' \<in> set ''/posts/:''" "example_URLPattern_new ''/posts/:'' = Inl TypeError"
    by (simp_all add: example_URLPattern_new_def)
  from add_compile_failure[where new = example_URLPattern_new and rt = "''/posts/:''"
      and e = TypeError and h = "''h1''" and r = site_router] h
  show ?thesis by simp
qed




text \<open>
  C9. The claim: the two copies of the listener decide alike on every navigation event.
  They do not: on an interceptable same-host download the first copy returns without
  doing anything, and the second calls \<^verbatim>\<open>match\<close>, which here (no route registered)
  dispatches \<^verbatim>\<open>404\<close>. They agree on all other events (\<open>navigate_listeners_agree\<close>).
\<close>

theorem navigate_listeners_differ:
  "navigate_listener example_URL_new ''site'' download_event empty_router =
     (Inr (), [], empty_router)
   \<and> navigate_listener2 example_URL_new ''site'' download_event empty_router =
     (Inr (),
      [Dispatch \<lparr>name = ''404'',
                  detail = DetailURL \<lparr>href = ''https://site/files/report.pdf'', host = ''site'',
                                       pathname = ''/files/report.pdf''\<rparr>\<rparr>],
      empty_router)"
  by (simp add: navigate_listener_def navigate_listener2_def get_property_def
      download_event_def example_URL_new_def Let_def empty_router_def match_def getRoute_def
      emit_def)

theorem navigate_listeners_differ_witness:
  "navigate_listener example_URL_new ''site'' download_event empty_router
     \<noteq> navigate_listener2 example_URL_new ''site'' download_event empty_router"
  using navigate_listeners_differ by simp

text \<open>
  C10. \<^verbatim>\<open>match\<close> returns the router it was given, and \<^verbatim>\<open>#getRoute\<close> only reads it (it
  returns no router at all). The other operations that are not \<^verbatim>\<open>add\<close> leave both the
  static mapping and the pattern sequence as they were: the deferred action, both
  navigate listeners, and every step of the async iterator.
\<close>

theorem route_table_frame:
  "snd (match u ev r) = r
   \<and> staticRoutes (snd (intercept_handler act r)) = staticRoutes r
   \<and> dynamicRoutes (snd (intercept_handler act r)) = dynamicRoutes r
   \<and> snd (snd (navigate_listener URL_new lh ev r)) = r
   \<and> snd (snd (navigate_listener2 URL_new lh ev r)) = r
   \<and> staticRoutes (snd (generator_step gev k (g, r))) = staticRoutes r
   \<and> dynamicRoutes (snd (generator_step gev k (g, r))) = dynamicRoutes r"
  using match_snd[of u ev r] intercept_handler_table[of act r]
    navigate_listener_snd[of URL_new lh ev r] navigate_listener2_snd[of URL_new lh ev r]
    generator_step_table[of gev k g r]
  by simp

theorem route_table_frame_witness:
  "snd (match post_42 (example_event ''https://site/posts/42'') site_router) = site_router
   \<and> dynamicRoutes (snd (intercept_handler
        \<lparr>captured_route = \<lparr>params = None, url = post_42\<rparr>, captured_handler = ''h1''\<rparr>
        (site_router\<lparr>resolveRouteChange := Some 7\<rparr>))) = dynamicRoutes site_router
   \<and> staticRoutes (snd (generator_step (Request Next) 7 (new_generator, site_router))) =
       staticRoutes site_router"
  using route_table_frame
    [where u = post_42 and ev = "example_event ''https://site/posts/42''" and r = site_router]
    route_table_frame
    [where act = "\<lparr>captured_route = \<lparr>params = None, url = post_42\<rparr>, captured_handler = ''h1''\<rparr>"
       and r = "site_router\<lparr>resolveRouteChange := Some 7\<rparr>"]
    route_table_frame
    [where gev = "Request Next" and k = 7 and g = new_generator and r = site_router]
  by simp

end
